theory Spec2Isabelle
  imports Complex_Main "HOL-Library.Sublist" "HOL-Library.Log_Nat"
begin

section \<open>Conventions of the embedding\<close>

text \<open>
  The program is TypeScript/JavaScript. Its values are embedded as follows.
  \<^item> A finite JavaScript \<open>number\<close> is the rational it denotes (\<^typ>\<open>rat\<close>). Where the
    result of the code depends on rounding, in the tolerance test of \<open>validateWeights\<close>,
    the numbers are doubles: a value is read as the double nearest to it (\<open>double_of\<close>,
    round to nearest, ties to even) and every sum and difference is rounded again. The
    other arithmetic of the model (penalty points, weighted sums, grade bounds, the
    casing ratio) is exact. Arithmetic on \<open>undefined\<close> gives \<open>NaN\<close>; the infinities are
    outside the model. \<open>Math.round\<close> rounds half up.
  \<^item> An object used as a dictionary (\<open>Record<string, T>\<close>) is a map over its own keys,
    or an association list where the code iterates over it (\<open>Object.entries\<close>,
    \<open>Object.values\<close>). A read \<open>obj[key]\<close> finds an own property, else a member that
    the object inherits from \<open>Object.prototype\<close>, else \<open>undefined\<close>. An own key named
    \<open>__proto__\<close>, which a write \<open>obj[key] = v\<close> does not create, is outside the model.
  \<^item> A string-literal union is a datatype; a thrown error is the \<open>Inl\<close> of a sum.
  \<^item> Messages built by string interpolation of numbers are kept as structured values
    (a constructor carrying the interpolated data).
\<close>

type_synonym number = rat

subsection \<open>Doubles\<close>

text \<open>
  The binary exponent of a number that is not zero: \<open>2^e <= |x| < 2^(e+1)\<close>.
\<close>

definition expo :: "rat \<Rightarrow> int" where
  "expo x = (let pq = quotient_of \<bar>x\<bar>; t = bitlen (fst pq) - bitlen (snd pq)
             in if 2 powi t \<le> \<bar>x\<bar> then t else t - 1)"


text \<open>
  A double has 52 fraction bits and its least normal exponent is -1022; the spacing of
  the doubles around \<open>x\<close> is \<open>double_ulp x\<close>, and \<open>double_of x\<close> is the double nearest to
  \<open>x\<close> (overflow to an infinity is outside the model).
\<close>

definition fraction_bits :: int where
  "fraction_bits = 52"

definition min_exponent :: int where
  "min_exponent = - 1022"

definition double_ulp :: "rat \<Rightarrow> rat" where
  "double_ulp x = 2 powi (max (expo x) min_exponent - fraction_bits)"




subsection \<open>Numbers that may be NaN\<close>

text \<open>
  The result of a computation that may have met \<open>undefined\<close>: a finite number or
  \<open>NaN\<close>. An operation with \<open>NaN\<close> gives \<open>NaN\<close>.
\<close>

datatype jsnumber = Finite number | NaN

fun js_add :: "jsnumber \<Rightarrow> jsnumber \<Rightarrow> jsnumber" where
  "js_add (Finite a) (Finite b) = Finite (a + b)"
| "js_add a b = NaN"

fun js_sub :: "jsnumber \<Rightarrow> jsnumber \<Rightarrow> jsnumber" where
  "js_sub (Finite a) (Finite b) = Finite (a - b)"
| "js_sub a b = NaN"

fun js_mul :: "jsnumber \<Rightarrow> jsnumber \<Rightarrow> jsnumber" where
  "js_mul (Finite a) (Finite b) = Finite (a * b)"
| "js_mul a b = NaN"

fun Math_max :: "jsnumber \<Rightarrow> jsnumber \<Rightarrow> jsnumber" where
  "Math_max (Finite a) (Finite b) = Finite (max a b)"
| "Math_max a b = NaN"

fun Math_round :: "jsnumber \<Rightarrow> jsnumber" where
  "Math_round (Finite x) = Finite (of_int \<lfloor>x + 1 / 2\<rfloor>)"
| "Math_round NaN = NaN"

subsection \<open>Property reads\<close>

text \<open>
  The members that every plain object (an object literal, an object built by the YAML
  parser) inherits from \<open>Object.prototype\<close>. All of them are truthy: eleven functions,
  and \<open>__proto__\<close>, which reads as \<open>Object.prototype\<close> itself.
\<close>

definition Object_prototype_members :: "string list" where
  "Object_prototype_members =
     [''constructor'', ''__defineGetter__'', ''__defineSetter__'', ''hasOwnProperty'',
      ''__lookupGetter__'', ''__lookupSetter__'', ''isPrototypeOf'',
      ''propertyIsEnumerable'', ''toString'', ''valueOf'', ''__proto__'',
      ''toLocaleString'']"

text \<open>The value of \<open>obj[key]\<close> for a plain object with the own properties \<open>obj\<close>.\<close>

datatype 'a property = Own 'a | Inherited string | Undefined

definition js_get :: "(string \<rightharpoonup> 'a) \<Rightarrow> string \<Rightarrow> 'a property" where
  "js_get obj key =
     (case obj key of
        Some v \<Rightarrow> Own v
      | None \<Rightarrow> if key \<in> set Object_prototype_members then Inherited key else Undefined)"

text \<open>\<open>Array.prototype.join\<close> on a list of strings.\<close>

fun join :: "string \<Rightarrow> string list \<Rightarrow> string" where
  "join sep [] = []"
| "join sep [x] = x"
| "join sep (x # y # ys) = x @ sep @ join sep (y # ys)"

section \<open>Types of the configuration and of the result (types/config)\<close>

datatype SpectralSeverity = Error | Warn | Info | Hint

text \<open>The five keys of \<open>CategoryWeights\<close>; the classifier returns their names.\<close>

datatype Category = Security | Completeness | Structure | Consistency | Architecture

fun category_name :: "Category \<Rightarrow> string" where
  "category_name Security = ''security''"
| "category_name Completeness = ''completeness''"
| "category_name Structure = ''structure''"
| "category_name Consistency = ''consistency''"
| "category_name Architecture = ''architecture''"

text \<open>The grade letters \<open>'A'\<close>, \<open>'B'\<close>, \<open>'C'\<close>, \<open>'D'\<close>, \<open>'F'\<close>.\<close>

datatype Grade = Grade_A | Grade_B | Grade_C | Grade_D | Grade_F

record PenaltyRule =
  points :: number
  fatal :: bool

text \<open>\<open>CategoryWeights\<close>; the field \<open>structure\<close> is \<open>structure_w\<close> here.\<close>

record CategoryWeights =
  security :: number
  completeness :: number
  structure_w :: number
  consistency :: number
  architecture :: number

text \<open>\<open>scoringConfig.weights[category]\<close>\<close>

fun weights_at :: "CategoryWeights \<Rightarrow> Category \<Rightarrow> number" where
  "weights_at w Security = security w"
| "weights_at w Completeness = completeness w"
| "weights_at w Structure = structure_w w"
| "weights_at w Consistency = consistency w"
| "weights_at w Architecture = architecture w"

text \<open>\<open>GradeThreshold\<close>: the fields \<open>min\<close> and \<open>max\<close>.\<close>

record GradeThreshold =
  min_t :: number
  max_t :: number

record GradingScale =
  scale_A :: GradeThreshold
  scale_B :: GradeThreshold
  scale_C :: GradeThreshold
  scale_D :: GradeThreshold
  scale_F :: GradeThreshold

record ScoringConfig =
  base_score :: number
  weights :: CategoryWeights
  penalties :: "string \<rightharpoonup> PenaltyRule"
  grading_scale :: GradingScale

text \<open>
  The known evaluators: the distinct values of \<open>SPECTRAL_FUNCTION_MAP\<close> (the functions
  of the rule engine's library and the custom casing detector).
\<close>

datatype evaluator =
  Fn_truthy | Fn_falsy | Fn_defined | Fn_undefined | Fn_pattern | Fn_schema
  | Fn_enumeration | Fn_length | Fn_alphabetical | Fn_casing | Fn_xor
  | Fn_unreferencedReusableObject | Fn_consistentCasing

text \<open>
  The \<open>function\<close> field of a \<open>then\<close> clause: a string (a name, as loaded from the
  configuration), a bound evaluator (after resolution), a member of \<open>Object.prototype\<close>
  (what resolution binds to a name such as \<open>toString\<close>), or any other value.
\<close>

datatype function_ref = Name string | Bound evaluator | Inherited_member string | Other

record SpectralRuleThen =
  then_function :: function_ref
  functionOptions :: "(string \<times> string) list option"
  field :: "string option"

text \<open>The \<open>then\<close> field of a rule: a single clause or an ordered list of clauses.\<close>

datatype then_field = Single SpectralRuleThen | Many "SpectralRuleThen list"

record SpectralRule =
  description :: string
  given :: "string list"
  rule_then :: "then_field option"
  rule_severity :: SpectralSeverity
  tags :: "string list option"
  enabled :: "bool option"

record SpectralRuleset =
  extends :: "string list option"
  rules :: "(string \<times> SpectralRule) list"

record Violation =
  ruleId :: string
  severity :: SpectralSeverity
  message :: string
  path :: string
  line :: "nat option"
  column :: "nat option"

record CategoryScore =
  category :: Category
  weight :: number
  pointsDeducted :: jsnumber
  violations :: "Violation list"

record Summary =
  totalViolations :: nat
  errorCount :: nat
  warningCount :: nat
  infoCount :: nat
  fatalCount :: nat

text \<open>The object that \<open>calculateScore\<close> returns.\<close>

record Score =
  finalScore :: jsnumber
  hasFatalErrors :: bool

text \<open>
  \<open>AuditResult\<close> without \<open>filePath\<close>, \<open>timestamp\<close> and \<open>duration\<close> (the file system
  and the clock).
\<close>

record AuditResult =
  finalScore :: jsnumber
  grade :: Grade
  passed :: bool
  hasFatalErrors :: bool
  violations :: "Violation list"
  categoryBreakdown :: "CategoryScore list"
  summary :: Summary
  notes_r :: "string list option"

section \<open>The auditor (core/auditor)\<close>

text \<open>\<open>getRuleCategory\<close>: the category from the rule's tags or from its identifier's prefix.\<close>

definition getRuleCategory :: "string \<Rightarrow> string list option \<Rightarrow> Category" where
  "getRuleCategory rid tgs =
     (case (case tgs of
              None \<Rightarrow> None
            | Some ts \<Rightarrow>
                if ''security'' \<in> set ts then Some Security
                else if ''completeness'' \<in> set ts then Some Completeness
                else if ''structure'' \<in> set ts then Some Structure
                else if ''consistency'' \<in> set ts then Some Consistency
                else None) of
        Some c \<Rightarrow> c
      | None \<Rightarrow>
          if prefix ''sec-'' rid then Security
          else if prefix ''com-'' rid then Completeness
          else if prefix ''str-'' rid then Structure
          else if prefix ''cns-'' rid then Consistency
          else Completeness)"

text \<open>
  A finding of the rule engine: \<open>code\<close>, \<open>severity\<close> (a number), \<open>message\<close>, \<open>path\<close>
  (segments), and the start of \<open>range\<close> (line, character) when there is one.
\<close>

datatype SpectralResult =
  SpectralResult string int string "string list" "nat option" "nat option"

fun convertResult :: "SpectralResult \<Rightarrow> Violation" where
  "convertResult (SpectralResult code sev msg segments start_line start_character) =
     \<lparr> ruleId = code,
       severity = (if sev = 0 then Error else if sev = 1 then Warn
                   else if sev = 2 then Info else Hint),
       message = msg,
       path = join ''.'' segments,
       line = start_line,
       column = start_character \<rparr>"

definition convertResults :: "SpectralResult list \<Rightarrow> Violation list" where
  "convertResults spectralResults = map convertResult spectralResults"

text \<open>
  \<open>ruleset.rules[v.ruleId]?.tags\<close>; a member inherited from \<open>Object.prototype\<close> has no
  field \<open>tags\<close>, so only an own rule gives tags.
\<close>

definition rule_tags :: "SpectralRuleset \<Rightarrow> string \<Rightarrow> string list option" where
  "rule_tags ruleset rid =
     (case map_of (rules ruleset) rid of None \<Rightarrow> None | Some r \<Rightarrow> tags r)"

text \<open>
  The loop of \<open>calculateCategoryScores\<close> that adds up \<open>pointsDeducted\<close>. The test
  \<open>if (penalty)\<close> holds of an own entry and of an inherited member; of an inherited
  member \<open>penalty.points\<close> is \<open>undefined\<close>, and adding it gives \<open>NaN\<close>.
\<close>

fun deductPoints :: "ScoringConfig \<Rightarrow> Violation list \<Rightarrow> jsnumber \<Rightarrow> jsnumber" where
  "deductPoints scoringConfig [] deducted = deducted"
| "deductPoints scoringConfig (violation # rest) deducted =
     deductPoints scoringConfig rest
       (case js_get (penalties scoringConfig) (ruleId violation) of
          Own penalty \<Rightarrow> js_add deducted (Finite (points penalty))
        | Inherited member \<Rightarrow> js_add deducted NaN
        | Undefined \<Rightarrow>
            js_add deducted
              (Finite (if severity violation = Error then 10
                       else if severity violation = Warn then 5 else 2)))"

definition categories :: "Category list" where
  "categories = [Security, Completeness, Structure, Consistency]"

definition calculateCategoryScores ::
  "Violation list \<Rightarrow> ScoringConfig \<Rightarrow> SpectralRuleset \<Rightarrow> CategoryScore list" where
  "calculateCategoryScores vs scoringConfig ruleset =
     map (\<lambda>cat.
            let categoryViolations =
                  filter (\<lambda>v. getRuleCategory (ruleId v) (rule_tags ruleset (ruleId v)) = cat) vs
            in \<lparr> category = cat,
                 weight = weights_at (weights scoringConfig) cat,
                 pointsDeducted = deductPoints scoringConfig categoryViolations (Finite 0),
                 violations = categoryViolations \<rparr>)
         categories"

text \<open>\<open>calculateGrade\<close>\<close>

definition calculateGrade :: "number \<Rightarrow> GradingScale \<Rightarrow> Grade" where
  "calculateGrade score scale =
     (if score \<ge> min_t (scale_A scale) then Grade_A
      else if score \<ge> min_t (scale_B scale) then Grade_B
      else if score \<ge> min_t (scale_C scale) then Grade_C
      else if score \<ge> min_t (scale_D scale) then Grade_D
      else Grade_F)"

text \<open>
  \<open>penalty?.fatal === true\<close> for \<open>penalty = scoringConfig.penalties[v.ruleId]\<close>; a
  member inherited from \<open>Object.prototype\<close> has no field \<open>fatal\<close>, so only an own entry
  can be fatal.
\<close>

definition isFatal :: "ScoringConfig \<Rightarrow> Violation \<Rightarrow> bool" where
  "isFatal scoringConfig v =
     (case penalties scoringConfig (ruleId v) of None \<Rightarrow> False | Some penalty \<Rightarrow> fatal penalty)"

text \<open>The loop of \<open>calculateScore\<close> that adds up \<open>totalPenalty\<close>.\<close>

fun addWeighted :: "CategoryScore list \<Rightarrow> jsnumber \<Rightarrow> jsnumber" where
  "addWeighted [] totalPenalty = totalPenalty"
| "addWeighted (c # rest) totalPenalty =
     addWeighted rest (js_add totalPenalty (js_mul (pointsDeducted c) (Finite (weight c))))"

definition calculateScore ::
  "ScoringConfig \<Rightarrow> Violation list \<Rightarrow> CategoryScore list \<Rightarrow> Score" where
  "calculateScore scoringConfig vs categoryScores =
     (if list_ex (isFatal scoringConfig) vs
      then \<lparr> Score.finalScore = Finite 0, hasFatalErrors = True \<rparr>
      else \<lparr> Score.finalScore =
               Math_max (Finite 0)
                 (js_sub (Finite (base_score scoringConfig))
                    (addWeighted categoryScores (Finite 0))),
             hasFatalErrors = False \<rparr>)"

text \<open>
  \<open>Auditor.audit\<close> from the findings of the rule engine on: \<open>hasResolutionErrors\<close> says
  whether dereferencing the document failed. Every comparison with \<open>NaN\<close> is false, so
  \<open>calculateGrade\<close> of the score \<open>NaN\<close> falls through to \<open>'F'\<close>.
\<close>

definition audit ::
  "ScoringConfig \<Rightarrow> SpectralRuleset \<Rightarrow> bool \<Rightarrow> SpectralResult list \<Rightarrow> AuditResult" where
  "audit scoringConfig rulesetConfig hasResolutionErrors spectralResults =
     (let vs = convertResults spectralResults;
          breakdown = calculateCategoryScores vs scoringConfig rulesetConfig;
          sc = calculateScore scoringConfig vs breakdown;
          g = (case Score.finalScore sc of
                 Finite score \<Rightarrow> calculateGrade score (grading_scale scoringConfig)
               | NaN \<Rightarrow> Grade_F)
      in \<lparr> finalScore = Math_round (Score.finalScore sc),
           grade = g,
           passed = (g \<noteq> Grade_F \<and> \<not> Score.hasFatalErrors sc),
           hasFatalErrors = Score.hasFatalErrors sc,
           violations = vs,
           categoryBreakdown = breakdown,
           summary =
             \<lparr> totalViolations = length vs,
               errorCount = length (filter (\<lambda>v. severity v = Error) vs),
               warningCount = length (filter (\<lambda>v. severity v = Warn) vs),
               infoCount = length (filter (\<lambda>v. severity v = Info) vs),
               fatalCount = length (filter (isFatal scoringConfig) vs) \<rparr>,
           notes_r =
             (if hasResolutionErrors
              then Some [''Warning: OpenAPI validation failed. File may contain structural errors that prevent full dereferencing. Audit results may be incomplete.'']
              else None) \<rparr>)"

text \<open>\<open>GRADE_ORDER\<close> of the command line: the fixed ranking of the grades (higher is better).\<close>

definition GRADE_ORDER :: "Grade \<Rightarrow> nat" where
  "GRADE_ORDER g =
     (case g of Grade_A \<Rightarrow> 5 | Grade_B \<Rightarrow> 4 | Grade_C \<Rightarrow> 3 | Grade_D \<Rightarrow> 2 | Grade_F \<Rightarrow> 1)"

section \<open>The configuration loader (config/loader)\<close>

definition SPECTRAL_FUNCTION_MAP :: "(string \<times> evaluator) list" where
  "SPECTRAL_FUNCTION_MAP =
     [(''truthy'', Fn_truthy),
      (''falsy'', Fn_falsy),
      (''defined'', Fn_defined),
      (''undefined'', Fn_undefined),
      (''pattern'', Fn_pattern),
      (''schema'', Fn_schema),
      (''enumeration'', Fn_enumeration),
      (''length'', Fn_length),
      (''alphabetical'', Fn_alphabetical),
      (''casing'', Fn_casing),
      (''xor'', Fn_xor),
      (''unreferencedReusableObject'', Fn_unreferencedReusableObject),
      (''unreferenced-reusable-object'', Fn_unreferencedReusableObject),
      (''consistentCasing'', Fn_consistentCasing),
      (''consistent-casing'', Fn_consistentCasing)]"

text \<open>\<open>ConfigLoadError(message, configPath)\<close>\<close>

datatype ConfigLoadError = ConfigLoadError string string

text \<open>
  The body of \<open>thenArray.map\<close>: one clause of the rule \<open>rid\<close>. The read
  \<open>SPECTRAL_FUNCTION_MAP[thenClause.function]\<close> is a read of a plain object, and the
  test \<open>if (!func)\<close> holds of \<open>undefined\<close> only.
\<close>

definition resolveClause ::
  "string \<Rightarrow> SpectralRuleThen \<Rightarrow> ConfigLoadError + SpectralRuleThen" where
  "resolveClause rid thenClause =
     (case then_function thenClause of
        Name fname \<Rightarrow>
          (case js_get (map_of SPECTRAL_FUNCTION_MAP) fname of
             Undefined \<Rightarrow>
               Inl (ConfigLoadError
                      (''Unknown Spectral function: '' @ fname @ '' in rule '' @ rid)
                      ''ruleset.yaml'')
           | Own func \<Rightarrow> Inr (thenClause\<lparr>then_function := Bound func\<rparr>)
           | Inherited member \<Rightarrow>
               Inr (thenClause\<lparr>then_function := Inherited_member member\<rparr>))
      | Bound f \<Rightarrow> Inr thenClause
      | Inherited_member member \<Rightarrow> Inr thenClause
      | Other \<Rightarrow> Inr thenClause)"

text \<open>\<open>thenArray.map\<close>: the first clause that throws ends the whole call.\<close>

fun resolveThen ::
  "string \<Rightarrow> SpectralRuleThen list \<Rightarrow> ConfigLoadError + SpectralRuleThen list" where
  "resolveThen rid [] = Inr []"
| "resolveThen rid (thenClause # rest) =
     (case resolveClause rid thenClause of
        Inl e \<Rightarrow> Inl e
      | Inr c \<Rightarrow>
          (case resolveThen rid rest of
             Inl e \<Rightarrow> Inl e
           | Inr cs \<Rightarrow> Inr (c # cs)))"

text \<open>The body of the loop over the rules.\<close>

definition resolveRule :: "string \<Rightarrow> SpectralRule \<Rightarrow> ConfigLoadError + SpectralRule" where
  "resolveRule rid rule =
     (case rule_then rule of
        None \<Rightarrow> Inr rule
      | Some t \<Rightarrow>
          (let thenArray = (case t of Many cs \<Rightarrow> cs | Single c \<Rightarrow> [c]) in
           case resolveThen rid thenArray of
             Inl e \<Rightarrow> Inl e
           | Inr resolvedThen \<Rightarrow>
               Inr (rule\<lparr>rule_then :=
                      Some (case t of
                              Many cs \<Rightarrow> Many resolvedThen
                            | Single c \<Rightarrow> Single (resolvedThen ! 0))\<rparr>)))"

fun resolveRules ::
  "(string \<times> SpectralRule) list \<Rightarrow> ConfigLoadError + (string \<times> SpectralRule) list" where
  "resolveRules [] = Inr []"
| "resolveRules ((rid, rule) # rest) =
     (case resolveRule rid rule of
        Inl e \<Rightarrow> Inl e
      | Inr r \<Rightarrow>
          (case resolveRules rest of
             Inl e \<Rightarrow> Inl e
           | Inr rs \<Rightarrow> Inr ((rid, r) # rs)))"

definition resolveRuleFunctions :: "SpectralRuleset \<Rightarrow> ConfigLoadError + SpectralRuleset" where
  "resolveRuleFunctions ruleset =
     (case resolveRules (rules ruleset) of
        Inl e \<Rightarrow> Inl e
      | Inr resolvedRules \<Rightarrow> Inr (ruleset\<lparr>rules := resolvedRules\<rparr>))"













section \<open>The casing detector (functions/consistent-casing)\<close>

text \<open>
  Regular expressions, matched against the whole string (the patterns are anchored by
  \<open>^\<close> and \<open>$\<close>) by derivatives.
\<close>

datatype regex =
  Never | Empty | Lit char | Range char char | Alt regex regex | Seq regex regex | Star regex

definition in_range :: "char \<Rightarrow> char \<Rightarrow> char \<Rightarrow> bool" where
  "in_range lo hi c = ((of_char lo :: nat) \<le> of_char c \<and> (of_char c :: nat) \<le> of_char hi)"

fun nullable :: "regex \<Rightarrow> bool" where
  "nullable Never = False"
| "nullable Empty = True"
| "nullable (Lit c) = False"
| "nullable (Range lo hi) = False"
| "nullable (Alt r s) = (nullable r \<or> nullable s)"
| "nullable (Seq r s) = (nullable r \<and> nullable s)"
| "nullable (Star r) = True"

fun deriv :: "char \<Rightarrow> regex \<Rightarrow> regex" where
  "deriv c Never = Never"
| "deriv c Empty = Never"
| "deriv c (Lit d) = (if c = d then Empty else Never)"
| "deriv c (Range lo hi) = (if in_range lo hi c then Empty else Never)"
| "deriv c (Alt r s) = Alt (deriv c r) (deriv c s)"
| "deriv c (Seq r s) =
     (if nullable r then Alt (Seq (deriv c r) s) (deriv c s) else Seq (deriv c r) s)"
| "deriv c (Star r) = Seq (deriv c r) (Star r)"

fun regex_test :: "regex \<Rightarrow> string \<Rightarrow> bool" where
  "regex_test r [] = nullable r"
| "regex_test r (c # cs) = regex_test (deriv c r) cs"

text \<open>\<open>/^[a-z][a-zA-Z0-9]*$/\<close>\<close>

definition CAMEL_CASE_PATTERN :: regex where
  "CAMEL_CASE_PATTERN =
     Seq (Range CHR ''a'' CHR ''z'')
         (Star (Alt (Range CHR ''a'' CHR ''z'')
                 (Alt (Range CHR ''A'' CHR ''Z'') (Range CHR ''0'' CHR ''9''))))"

text \<open>\<open>/^[a-z][a-z0-9]*(_[a-z][a-z0-9]*)*$/\<close>\<close>

definition SNAKE_CASE_PATTERN :: regex where
  "SNAKE_CASE_PATTERN =
     Seq (Range CHR ''a'' CHR ''z'')
      (Seq (Star (Alt (Range CHR ''a'' CHR ''z'') (Range CHR ''0'' CHR ''9'')))
           (Star (Seq (Lit CHR ''_'')
                   (Seq (Range CHR ''a'' CHR ''z'')
                        (Star (Alt (Range CHR ''a'' CHR ''z'') (Range CHR ''0'' CHR ''9'')))))))"

definition IGNORED_KEYS :: "string list" where
  "IGNORED_KEYS = [''type'', ''format'', ''properties'', ''items'', ''required'',
                   ''description'', ''example'', ''examples'']"

definition isCamelCase :: "string \<Rightarrow> bool" where
  "isCamelCase key = (regex_test CAMEL_CASE_PATTERN key \<and> CHR ''_'' \<notin> set key)"

definition isSnakeCase :: "string \<Rightarrow> bool" where
  "isSnakeCase key = (regex_test SNAKE_CASE_PATTERN key \<and> CHR ''_'' \<in> set key)"

text \<open>
  A value of the document. An object is the list of its entries (\<open>Object.keys\<close> with the
  values); an array is an object too (\<open>typeof\<close> is \<open>'object'\<close>) and its keys are its
  indices in decimal.
\<close>

datatype json = JNull | JBool bool | JNum number | JStr string | JObj "(string \<times> json) list"

fun show_nat :: "nat \<Rightarrow> string" where
  "show_nat n = (if n < 10 then [''0123456789'' ! n]
                 else show_nat (n div 10) @ [''0123456789'' ! (n mod 10)])"

definition JArr :: "json list \<Rightarrow> json" where
  "JArr xs = JObj (zip (map show_nat [0..<length xs]) xs)"

text \<open>\<open>typeof v === 'object'\<close>, which holds of \<open>null\<close> too.\<close>

fun typeof_object :: "json \<Rightarrow> bool" where
  "typeof_object JNull = True"
| "typeof_object (JObj kvs) = True"
| "typeof_object (JBool b) = False"
| "typeof_object (JNum n) = False"
| "typeof_object (JStr s) = False"

record CasingStats =
  camelCase :: nat
  snakeCase :: nat
  total :: nat

text \<open>The default value of the parameter \<open>stats\<close>.\<close>

definition noStats :: CasingStats where
  "noStats = \<lparr> camelCase = 0, snakeCase = 0, total = 0 \<rparr>"

text \<open>
  \<open>countCasingStyles\<close> updates one shared \<open>stats\<close> object; here the object is passed
  on and returned. \<open>countKeys\<close> is the loop over \<open>Object.keys(obj)\<close>.
\<close>

fun countCasingStyles :: "json \<Rightarrow> CasingStats \<Rightarrow> CasingStats"
and countKeys :: "(string \<times> json) list \<Rightarrow> CasingStats \<Rightarrow> CasingStats" where
  "countCasingStyles (JObj kvs) stats = countKeys kvs stats"
| "countCasingStyles JNull stats = stats"
| "countCasingStyles (JBool b) stats = stats"
| "countCasingStyles (JNum n) stats = stats"
| "countCasingStyles (JStr s) stats = stats"
| "countKeys [] stats = stats"
| "countKeys ((key, v) # rest) stats =
     (if key \<in> set IGNORED_KEYS then
        (let s1 = (if key = ''properties'' \<and> typeof_object v
                   then countCasingStyles v stats else stats);
             s2 = (if key = ''items'' \<and> typeof_object v
                   then countCasingStyles v s1 else s1)
         in countKeys rest s2)
      else
        (let s1 = stats\<lparr>total := total stats + 1\<rparr>;
             s2 = (if isCamelCase key then s1\<lparr>camelCase := camelCase s1 + 1\<rparr>
                   else if isSnakeCase key then s1\<lparr>snakeCase := snakeCase s1 + 1\<rparr>
                   else s1);
             s3 = (if typeof_object v \<and> v \<noteq> JNull
                   then countCasingStyles v s2 else s2)
         in countKeys rest s3))"

datatype CasingStyle = Style_camelCase | Style_snake_case

text \<open>
  The finding of \<open>consistentCasing\<close>: the values its message is built from (both counts,
  the majority style, the minority style and the ratio).
\<close>

record Finding =
  foundCamelCase :: nat
  foundSnakeCase :: nat
  majorityStyle :: CasingStyle
  minorityStyle :: CasingStyle
  minorityRatio :: number

definition consistentCasing :: "json \<Rightarrow> Finding list" where
  "consistentCasing targetVal =
     (let stats = countCasingStyles targetVal noStats in
      if total stats \<le> 5 then []
      else
        (let majority = max (camelCase stats) (snakeCase stats);
             minority = min (camelCase stats) (snakeCase stats)
         in if minority = 0 then []
            else
              (let ratio = (of_nat minority :: number) / of_nat (majority + minority) in
               if ratio > 20 / 100
               then [\<lparr> foundCamelCase = camelCase stats,
                        foundSnakeCase = snakeCase stats,
                        majorityStyle = (if camelCase stats > snakeCase stats
                                         then Style_camelCase else Style_snake_case),
                        minorityStyle = (if camelCase stats > snakeCase stats
                                         then Style_snake_case else Style_camelCase),
                        minorityRatio = ratio \<rparr>]
               else [])))"

section \<open>The specification's formulations\<close>

text \<open>
  The following definitions follow the words of the specification, to be compared with
  the definitions above, which follow the code; \<open>unknown_in_clauses\<close>,
  \<open>unknown_functions\<close>, \<open>first_offence\<close>, \<open>offences_of\<close> and \<open>countedKeys\<close> are auxiliary
  notions of the proofs.
\<close>

text \<open>
  Classification: the first of the tags security, completeness, structure, consistency
  (in this order) that the rule carries; otherwise the first matching identifier prefix;
  otherwise completeness.
\<close>

definition classify_spec :: "string \<Rightarrow> string list option \<Rightarrow> Category" where
  "classify_spec rid tgs =
     (case find (\<lambda>c. category_name c \<in> set (case tgs of None \<Rightarrow> [] | Some ts \<Rightarrow> ts))
             [Security, Completeness, Structure, Consistency] of
        Some c \<Rightarrow> c
      | None \<Rightarrow>
          (case find (\<lambda>pc. prefix (fst pc) rid)
                  [(''sec-'', Security), (''com-'', Completeness),
                   (''str-'', Structure), (''cns-'', Consistency)] of
             Some pc \<Rightarrow> snd pc
           | None \<Rightarrow> Completeness))"

text \<open>
  A violation's points: the configured points of its rule when a penalty entry exists,
  otherwise 10 for an error, 5 for a warning and 2 for any other severity.
\<close>

definition spec_points :: "ScoringConfig \<Rightarrow> Violation \<Rightarrow> number" where
  "spec_points cfg v =
     (case penalties cfg (ruleId v) of
        Some p \<Rightarrow> points p
      | None \<Rightarrow> (case severity v of Error \<Rightarrow> 10 | Warn \<Rightarrow> 5 | Info \<Rightarrow> 2 | Hint \<Rightarrow> 2))"

text \<open>The sum of the points of the violations of one category.\<close>

definition spec_category_points ::
  "ScoringConfig \<Rightarrow> SpectralRuleset \<Rightarrow> Violation list \<Rightarrow> Category \<Rightarrow> number" where
  "spec_category_points cfg ruleset vs cat =
     sum_list (map (spec_points cfg)
       (filter (\<lambda>v. getRuleCategory (ruleId v) (rule_tags ruleset (ruleId v)) = cat) vs))"

text \<open>
  The base score minus the weighted sum over the four scored categories, not below 0.
\<close>

definition spec_score :: "ScoringConfig \<Rightarrow> SpectralRuleset \<Rightarrow> Violation list \<Rightarrow> number" where
  "spec_score cfg ruleset vs =
     max 0 (base_score cfg -
       (security (weights cfg) * spec_category_points cfg ruleset vs Security
        + completeness (weights cfg) * spec_category_points cfg ruleset vs Completeness
        + structure_w (weights cfg) * spec_category_points cfg ruleset vs Structure
        + consistency (weights cfg) * spec_category_points cfg ruleset vs Consistency))"

text \<open>
  A known evaluator is one of the fifteen names of the function table.
\<close>

definition known_evaluator :: "string \<Rightarrow> bool" where
  "known_evaluator fname = (fname \<in> fst ` set SPECTRAL_FUNCTION_MAP)"

text \<open>
  Rule resolution: the clauses of a \<open>then\<close> field, in order; the clauses of a rule
  at which resolution throws, as pairs of rule identifier and function name: those that
  name a function which the read of the function table does not find, neither as a
  key of its own nor as a member that it inherits; the offences of a whole rule set, in
  the order of its rules.
\<close>

definition clauses_of :: "then_field option \<Rightarrow> SpectralRuleThen list" where
  "clauses_of t = (case t of None \<Rightarrow> [] | Some (Single c) \<Rightarrow> [c] | Some (Many cs) \<Rightarrow> cs)"

definition unknown_in_clauses :: "string \<Rightarrow> SpectralRuleThen list \<Rightarrow> (string \<times> string) list" where
  "unknown_in_clauses rid cs =
     concat (map (\<lambda>c. case then_function c of
                         Name fname \<Rightarrow>
                           (case js_get (map_of SPECTRAL_FUNCTION_MAP) fname of
                              Undefined \<Rightarrow> [(rid, fname)]
                            | Own func \<Rightarrow> []
                            | Inherited member \<Rightarrow> [])
                       | Bound f \<Rightarrow> []
                       | Inherited_member member \<Rightarrow> []
                       | Other \<Rightarrow> []) cs)"

definition unknown_functions :: "SpectralRuleset \<Rightarrow> (string \<times> string) list" where
  "unknown_functions ruleset =
     concat (map (\<lambda>entry. unknown_in_clauses (fst entry) (clauses_of (rule_then (snd entry))))
               (rules ruleset))"

text \<open>
  Binding a clause replaces a name by what the read of the function table finds: the
  evaluator of a known name, the inherited member of a name such as \<open>toString\<close>; a
  \<open>then\<close> field keeps its shape (a single clause stays a single clause, a list stays a
  list).
\<close>

definition bind_clause :: "SpectralRuleThen \<Rightarrow> SpectralRuleThen" where
  "bind_clause c =
     (case then_function c of
        Name fname \<Rightarrow>
          (case js_get (map_of SPECTRAL_FUNCTION_MAP) fname of
             Own func \<Rightarrow> c\<lparr>then_function := Bound func\<rparr>
           | Inherited member \<Rightarrow> c\<lparr>then_function := Inherited_member member\<rparr>
           | Undefined \<Rightarrow> c)
      | Bound f \<Rightarrow> c
      | Inherited_member member \<Rightarrow> c
      | Other \<Rightarrow> c)"

fun bind_then :: "then_field \<Rightarrow> then_field" where
  "bind_then (Single c) = Single (bind_clause c)"
| "bind_then (Many cs) = Many (map bind_clause cs)"

definition bind_rule :: "SpectralRule \<Rightarrow> SpectralRule" where
  "bind_rule rule = rule\<lparr>rule_then := map_option bind_then (rule_then rule)\<rparr>"

text \<open>The error for an offence: its message names the function and the rule.\<close>

definition unknown_function_error :: "string \<times> string \<Rightarrow> ConfigLoadError" where
  "unknown_function_error offence =
     ConfigLoadError (''Unknown Spectral function: '' @ snd offence @ '' in rule '' @ fst offence)
       ''ruleset.yaml''"

text \<open>The result of a step that fails with the first of a list of offences.\<close>

definition first_offence :: "(string \<times> string) list \<Rightarrow> 'a \<Rightarrow> ConfigLoadError + 'a" where
  "first_offence offences x =
     (case offences of [] \<Rightarrow> Inr x | offence # others \<Rightarrow> Inl (unknown_function_error offence))"

text \<open>The offences of a list of rules.\<close>

definition offences_of :: "(string \<times> SpectralRule) list \<Rightarrow> (string \<times> string) list" where
  "offences_of entries =
     concat (map (\<lambda>entry. unknown_in_clauses (fst entry) (clauses_of (rule_then (snd entry))))
               entries)"

text \<open>
  The casing counter: the keys that the traversal visits and counts, in order. Keys of the
  ignore list are not visited, but the values of \<open>properties\<close> and \<open>items\<close> are
  descended into.
\<close>

fun visitedKeys :: "json \<Rightarrow> string list"
and visitedEntries :: "(string \<times> json) list \<Rightarrow> string list" where
  "visitedKeys (JObj kvs) = visitedEntries kvs"
| "visitedKeys JNull = []"
| "visitedKeys (JBool b) = []"
| "visitedKeys (JNum n) = []"
| "visitedKeys (JStr s) = []"
| "visitedEntries [] = []"
| "visitedEntries ((key, v) # rest) =
     (if key \<in> set IGNORED_KEYS
      then (if key = ''properties'' \<or> key = ''items'' then visitedKeys v else [])
      else key # visitedKeys v)
     @ visitedEntries rest"

text \<open>The three counters after counting a list of keys.\<close>

definition countedKeys :: "string list \<Rightarrow> CasingStats \<Rightarrow> CasingStats" where
  "countedKeys ks stats =
     \<lparr> camelCase = camelCase stats + length (filter isCamelCase ks),
       snakeCase = snakeCase stats + length (filter isSnakeCase ks),
       total = total stats + length ks \<rparr>"

text \<open>
  A pattern that is anchored at the start only (\<open>^\<close> and no \<open>$\<close>) matches a key
  when it matches one of the key's prefixes.
\<close>

definition regex_test_prefix :: "regex \<Rightarrow> string \<Rightarrow> bool" where
  "regex_test_prefix r key = list_ex (regex_test r) (prefixes key)"


section \<open>Concrete inputs\<close>

text \<open>
  The weights, the grading scale and a scoring configuration in the shape of the default
  configuration, with one ordinary and one fatal penalty.
\<close>

definition exampleWeights :: CategoryWeights where
  "exampleWeights = \<lparr> security = 35 / 100, completeness = 25 / 100, structure_w = 25 / 100,
                      consistency = 15 / 100, architecture = 0 \<rparr>"

definition exampleScale :: GradingScale where
  "exampleScale =
     \<lparr> scale_A = \<lparr> min_t = 90, max_t = 100 \<rparr>,
       scale_B = \<lparr> min_t = 80, max_t = 89 \<rparr>,
       scale_C = \<lparr> min_t = 70, max_t = 79 \<rparr>,
       scale_D = \<lparr> min_t = 60, max_t = 69 \<rparr>,
       scale_F = \<lparr> min_t = 0, max_t = 59 \<rparr> \<rparr>"

definition exampleConfig :: ScoringConfig where
  "exampleConfig =
     \<lparr> base_score = 100,
       weights = exampleWeights,
       penalties = [''com-doc'' \<mapsto> \<lparr> points = 30, fatal = False \<rparr>,
                    ''sec-https'' \<mapsto> \<lparr> points = 50, fatal = True \<rparr>],
       grading_scale = exampleScale \<rparr>"

text \<open>A rule set with a single clause and a list of clauses, and one with an unknown name.\<close>

definition exampleRuleset :: SpectralRuleset where
  "exampleRuleset =
     \<lparr> extends = Some [''spectral:oas''],
       rules =
         [(''com-doc'',
           \<lparr> description = ''Operations must have a description'',
             given = [''$.paths[*][*]''],
             rule_then = Some (Single \<lparr> then_function = Name ''truthy'',
                                        functionOptions = None,
                                        field = Some ''description'' \<rparr>),
             rule_severity = Warn,
             tags = Some [''completeness''],
             enabled = None \<rparr>),
          (''cns-casing'',
           \<lparr> description = ''Property names must use one casing style'',
             given = [''$.components.schemas[*]''],
             rule_then = Some (Many [\<lparr> then_function = Name ''consistent-casing'',
                                       functionOptions = None, field = None \<rparr>,
                                     \<lparr> then_function = Name ''defined'',
                                       functionOptions = None, field = None \<rparr>]),
             rule_severity = Error,
             tags = None,
             enabled = Some True \<rparr>)] \<rparr>"

definition brokenRuleset :: SpectralRuleset where
  "brokenRuleset =
     exampleRuleset\<lparr>rules := rules exampleRuleset @
        [(''str-refs'',
           \<lparr> description = ''Schemas must be referenced'',
             given = [''$.components.schemas''],
             rule_then = Some (Many [\<lparr> then_function = Name ''truthy'',
                                       functionOptions = None, field = None \<rparr>,
                                     \<lparr> then_function = Name ''truthyy'',
                                       functionOptions = None, field = None \<rparr>]),
             rule_severity = Error,
             tags = None,
             enabled = None \<rparr>)]\<rparr>"

text \<open>A rule set with a clause that names a member of \<open>Object.prototype\<close>.\<close>

definition inheritedRuleset :: SpectralRuleset where
  "inheritedRuleset =
     \<lparr> extends = None,
       rules =
         [(''str-refs'',
           \<lparr> description = ''Schemas must be referenced'',
             given = [''$.components.schemas''],
             rule_then = Some (Single \<lparr> then_function = Name ''toString'',
                                        functionOptions = None, field = None \<rparr>),
             rule_severity = Error,
             tags = None,
             enabled = None \<rparr>)] \<rparr>"

text \<open>A finding of the rule engine with the given code and severity.\<close>

definition finding :: "string \<Rightarrow> int \<Rightarrow> SpectralResult" where
  "finding code sev = SpectralResult code sev ''message'' [''paths'', ''/users''] None None"






text \<open>Schemas with six property names: five camelCase and one snake_case, four and two.\<close>

definition stringSchema :: json where
  "stringSchema = JObj [(''type'', JStr ''string''), (''description'', JStr ''a_b'')]"

definition schema_5_1 :: json where
  "schema_5_1 =
     JObj [(''type'', JStr ''object''),
           (''required'', JArr [JStr ''userId'']),
           (''properties'',
            JObj [(''userId'', stringSchema), (''firstName'', stringSchema),
                  (''lastName'', stringSchema), (''createdAt'', stringSchema),
                  (''updatedAt'', stringSchema), (''phone_number'', stringSchema)])]"

definition schema_4_2 :: json where
  "schema_4_2 =
     JObj [(''type'', JStr ''object''),
           (''properties'',
            JObj [(''userId'', stringSchema), (''firstName'', stringSchema),
                  (''lastName'', stringSchema), (''createdAt'', stringSchema),
                  (''updated_at'', stringSchema), (''phone_number'', stringSchema)])]"

section \<open>The score calculator\<close>

lemma deductPoints_sum:
  assumes "\<forall>v \<in> set vs. penalties cfg (ruleId v) = None
             \<longrightarrow> ruleId v \<notin> set Object_prototype_members"
  shows "deductPoints cfg vs (Finite acc) = Finite (acc + sum_list (map (spec_points cfg) vs))"
  using assms
proof (induction vs arbitrary: acc)
  case Nil
  show ?case by simp
next
  case (Cons v vs)
  then have rest: "\<And>acc. deductPoints cfg vs (Finite acc)
                     = Finite (acc + sum_list (map (spec_points cfg) vs))"
    by simp
  have step: "(case js_get (penalties cfg) (ruleId v) of
                 Own penalty \<Rightarrow> js_add (Finite acc) (Finite (points penalty))
               | Inherited member \<Rightarrow> js_add (Finite acc) NaN
               | Undefined \<Rightarrow>
                   js_add (Finite acc)
                     (Finite (if severity v = Error then 10
                              else if severity v = Warn then 5 else 2)))
              = Finite (acc + spec_points cfg v)"
  proof (cases "penalties cfg (ruleId v)")
    case None
    with Cons.prems have "ruleId v \<notin> set Object_prototype_members" by simp
    with None show ?thesis
      by (cases "severity v") (simp_all add: js_get_def spec_points_def)
  next
    case (Some p)
    then show ?thesis by (simp add: js_get_def spec_points_def)
  qed
  show ?case by (simp only: deductPoints.simps step rest) (simp add: add.assoc)
qed

lemma calculateScore_nonfatal:
  assumes "\<not> list_ex (isFatal cfg) vs"
    and "\<forall>v \<in> set vs. penalties cfg (ruleId v) = None
           \<longrightarrow> ruleId v \<notin> set Object_prototype_members"
  shows "Score.finalScore (calculateScore cfg vs (calculateCategoryScores vs cfg ruleset))
         = Finite (spec_score cfg ruleset vs)"
proof -
  have d: "deductPoints cfg (filter P vs) (Finite 0)
           = Finite (sum_list (map (spec_points cfg) (filter P vs)))" for P
    using deductPoints_sum[of "filter P vs" cfg 0] assms(2) by simp
  show ?thesis
    using assms(1)
    by (simp add: calculateScore_def calculateCategoryScores_def categories_def spec_score_def
        spec_category_points_def d Let_def mult.commute)
qed

lemma not_fatal_configured:
  assumes "\<forall>v \<in> set vs. \<forall>p. penalties cfg (ruleId v) = Some p \<longrightarrow> \<not> fatal p"
  shows "\<not> list_ex (isFatal cfg) vs"
  using assms by (auto simp: list_ex_iff isFatal_def split: option.splits)

text \<open>
  As long as no violation carries a rule identifier that the penalties object inherits
  and does not configure, the score is, in exact arithmetic, the weighted sum of the
  specification, and the audit reports it rounded half up.
\<close>

lemma weighted_score_of_own_rules:
  assumes "\<forall>v \<in> set vs. \<forall>p. penalties cfg (ruleId v) = Some p \<longrightarrow> \<not> fatal p"
    and "\<forall>v \<in> set vs. penalties cfg (ruleId v) = None
           \<longrightarrow> ruleId v \<notin> set Object_prototype_members"
  shows "Score.finalScore (calculateScore cfg vs (calculateCategoryScores vs cfg ruleset))
           = Finite (spec_score cfg ruleset vs)"
    and "convertResults rs = vs \<Longrightarrow>
           AuditResult.finalScore (audit cfg ruleset unresolved rs)
             = Finite (of_int \<lfloor>spec_score cfg ruleset vs + 1 / 2\<rfloor>)"
proof -
  have nf: "\<not> list_ex (isFatal cfg) vs" using assms(1) by (rule not_fatal_configured)
  show a: "Score.finalScore (calculateScore cfg vs (calculateCategoryScores vs cfg ruleset))
           = Finite (spec_score cfg ruleset vs)"
    using nf assms(2) by (rule calculateScore_nonfatal)
  show "AuditResult.finalScore (audit cfg ruleset unresolved rs)
          = Finite (of_int \<lfloor>spec_score cfg ruleset vs + 1 / 2\<rfloor>)" if "convertResults rs = vs"
    using that a by (simp add: audit_def Let_def)
qed

lemma example_points:
  "spec_score exampleConfig exampleRuleset (convertResults [finding ''com-doc'' 1]) = 185 / 2"
  by (simp add: spec_score_def spec_category_points_def spec_points_def convertResults_def
      finding_def exampleConfig_def exampleRuleset_def exampleWeights_def rule_tags_def
      getRuleCategory_def)

lemma example_score:
  "AuditResult.finalScore (audit exampleConfig exampleRuleset False [finding ''com-doc'' 1])
     = Finite 93"
proof -
  have nf: "\<forall>v \<in> set (convertResults [finding ''com-doc'' 1]).
              \<forall>p. penalties exampleConfig (ruleId v) = Some p \<longrightarrow> \<not> fatal p"
    by (simp add: convertResults_def finding_def exampleConfig_def)
  have own: "\<forall>v \<in> set (convertResults [finding ''com-doc'' 1]).
               penalties exampleConfig (ruleId v) = None
                 \<longrightarrow> ruleId v \<notin> set Object_prototype_members"
    by (simp add: convertResults_def finding_def exampleConfig_def)
  show ?thesis
    using weighted_score_of_own_rules(2)[OF nf own refl, of exampleRuleset False]
    unfolding example_points by simp
qed

text \<open>
  Claim C1. Whenever some violation's rule identifier has a configured penalty with
  \<open>fatal = true\<close>, \<open>calculateScore\<close> returns \<open>finalScore = 0\<close> and
  \<open>hasFatalErrors = true\<close>, whatever the other violations, the category scores (their
  penalty sums and weights) and the rest of the configuration are.
\<close>

theorem fatal_violation_forces_zero:
  assumes "v \<in> set vs" and "penalties cfg (ruleId v) = Some p" and "fatal p"
  shows "calculateScore cfg vs categoryScores
         = \<lparr> Score.finalScore = Finite 0, hasFatalErrors = True \<rparr>"
proof -
  have "isFatal cfg v" using assms by (simp add: isFatal_def)
  with assms(1) have "list_ex (isFatal cfg) vs" by (auto simp: list_ex_iff)
  then show ?thesis by (simp add: calculateScore_def)
qed

theorem fatal_violation_forces_zero_witness:
  "calculateScore exampleConfig (convertResults [finding ''com-doc'' 1, finding ''sec-https'' 0])
     [\<lparr> category = Completeness, weight = 1 / 4, pointsDeducted = Finite 30, violations = [] \<rparr>]
   = \<lparr> Score.finalScore = Finite 0, hasFatalErrors = True \<rparr>"
  by (rule fatal_violation_forces_zero[where v = "convertResult (finding ''sec-https'' 0)"
        and p = "\<lparr> points = 50, fatal = True \<rparr>"])
     (simp_all add: convertResults_def finding_def exampleConfig_def)

text \<open>
  Claim C2. The claim does not hold of the code at a violation whose rule identifier is
  a name that the penalties object inherits from \<open>Object.prototype\<close> and does not
  configure. For one finding of severity error of a rule named \<open>constructor\<close>, with no
  penalty entry and no fatal rule, the claim gives the default of 10 points, in the
  category completeness at weight 0.25: the score 97.5, reported as 98. In the code
  \<open>scoringConfig.penalties['constructor']\<close> is the inherited member, its \<open>points\<close> is
  \<open>undefined\<close>, and the score and the reported \<open>finalScore\<close> are \<open>NaN\<close>, with grade F.
\<close>

theorem inherited_penalty_gives_NaN:
  "penalties exampleConfig ''constructor'' = None
   \<and> spec_points exampleConfig (convertResult (finding ''constructor'' 0)) = 10
   \<and> spec_score exampleConfig exampleRuleset (convertResults [finding ''constructor'' 0])
       = 195 / 2
   \<and> Score.finalScore
        (calculateScore exampleConfig (convertResults [finding ''constructor'' 0])
           (calculateCategoryScores (convertResults [finding ''constructor'' 0])
              exampleConfig exampleRuleset))
       = NaN
   \<and> AuditResult.finalScore (audit exampleConfig exampleRuleset False [finding ''constructor'' 0])
       = NaN
   \<and> grade (audit exampleConfig exampleRuleset False [finding ''constructor'' 0]) = Grade_F
   \<and> AuditResult.hasFatalErrors
        (audit exampleConfig exampleRuleset False [finding ''constructor'' 0]) = False"
proof -
  let ?vs = "convertResults [finding ''constructor'' 0]"
  have v: "?vs = [\<lparr> ruleId = ''constructor'', severity = Error, message = ''message'',
                    path = ''paths./users'', line = None, column = None \<rparr>]"
    by (simp add: convertResults_def finding_def)
  have inherited: "js_get (penalties exampleConfig) ''constructor'' = Inherited ''constructor''"
    by (simp add: js_get_def exampleConfig_def Object_prototype_members_def)
  have p: "penalties exampleConfig ''constructor'' = None"
    by (simp add: exampleConfig_def)
  have pts: "spec_points exampleConfig (convertResult (finding ''constructor'' 0)) = 10"
    by (simp add: spec_points_def finding_def p)
  have cat: "getRuleCategory ''constructor'' (rule_tags exampleRuleset ''constructor'')
             = Completeness"
    by (simp add: getRuleCategory_def rule_tags_def exampleRuleset_def)
  have spec: "spec_score exampleConfig exampleRuleset ?vs = 195 / 2"
    unfolding v
    by (simp add: spec_score_def spec_category_points_def spec_points_def p cat)
       (simp add: exampleConfig_def exampleWeights_def)
  have nf: "\<not> list_ex (isFatal exampleConfig) ?vs"
    unfolding v by (simp add: isFatal_def p)
  have sc: "Score.finalScore
        (calculateScore exampleConfig ?vs (calculateCategoryScores ?vs exampleConfig exampleRuleset))
       = NaN"
    using nf unfolding v
    by (simp add: calculateScore_def calculateCategoryScores_def categories_def cat inherited)
  have a: "AuditResult.finalScore (audit exampleConfig exampleRuleset False [finding ''constructor'' 0])
       = NaN"
    using sc by (simp add: audit_def Let_def)
  have g: "grade (audit exampleConfig exampleRuleset False [finding ''constructor'' 0]) = Grade_F"
    using sc by (simp add: audit_def Let_def)
  have h: "AuditResult.hasFatalErrors
        (audit exampleConfig exampleRuleset False [finding ''constructor'' 0]) = False"
    using nf by (simp add: audit_def Let_def calculateScore_def)
  from p pts spec sc a g h show ?thesis by blast
qed

section \<open>The grade mapper\<close>

text \<open>
  Claim C5. For any two scores \<open>s1 > s2\<close> and any grading scale, \<open>calculateGrade\<close>
  never gives \<open>s1\<close> a worse grade than \<open>s2\<close> in the ranking A > B > C > D > F.
\<close>

theorem grade_monotonic:
  "s2 < s1 \<Longrightarrow> GRADE_ORDER (calculateGrade s2 scale) \<le> GRADE_ORDER (calculateGrade s1 scale)"
  unfolding calculateGrade_def GRADE_ORDER_def by (simp split: if_splits)

theorem grade_monotonic_witness:
  "(185 / 2 :: number) < 93
   \<and> GRADE_ORDER (calculateGrade (185 / 2) exampleScale)
       \<le> GRADE_ORDER (calculateGrade 93 exampleScale)
   \<and> calculateGrade 79 exampleScale = Grade_C \<and> calculateGrade 80 exampleScale = Grade_B"
proof -
  have h: "(185 / 2 :: number) < 93" by simp
  show ?thesis using grade_monotonic[OF h, of exampleScale]
    by (simp add: calculateGrade_def exampleScale_def)
qed

section \<open>The category classifier\<close>

lemma tag_priority:
  "(case tgs of None \<Rightarrow> None
    | Some ts \<Rightarrow>
        if ''security'' \<in> set ts then Some Security
        else if ''completeness'' \<in> set ts then Some Completeness
        else if ''structure'' \<in> set ts then Some Structure
        else if ''consistency'' \<in> set ts then Some Consistency
        else None)
   = find (\<lambda>c. category_name c \<in> set (case tgs of None \<Rightarrow> [] | Some ts \<Rightarrow> ts))
       [Security, Completeness, Structure, Consistency]"
  by (cases tgs) simp_all

lemma prefix_priority:
  "(if prefix ''sec-'' rid then Security
    else if prefix ''com-'' rid then Completeness
    else if prefix ''str-'' rid then Structure
    else if prefix ''cns-'' rid then Consistency
    else Completeness)
   = (case find (\<lambda>pc. prefix (fst pc) rid)
                [(''sec-'', Security), (''com-'', Completeness),
                 (''str-'', Structure), (''cns-'', Consistency)] of
        Some pc \<Rightarrow> snd pc
      | None \<Rightarrow> Completeness)"
  by simp

lemma getRuleCategory_spec: "getRuleCategory rid tgs = classify_spec rid tgs"
  unfolding getRuleCategory_def classify_spec_def tag_priority prefix_priority ..

lemma find_Some_in_set: "find P xs = Some x \<Longrightarrow> x \<in> set xs"
  by (induction xs) (auto split: if_splits)

lemma classify_spec_scored: "classify_spec rid tgs \<in> set categories"
proof (cases "find (\<lambda>c. category_name c \<in> set (case tgs of None \<Rightarrow> [] | Some ts \<Rightarrow> ts))
                [Security, Completeness, Structure, Consistency]")
  case (Some c)
  from find_Some_in_set[OF this] show ?thesis
    unfolding classify_spec_def Some categories_def by simp
next
  case None
  show ?thesis
  proof (cases "find (\<lambda>pc. prefix (fst pc) rid)
                  [(''sec-'', Security), (''com-'', Completeness),
                   (''str-'', Structure), (''cns-'', Consistency)]")
    case no_prefix: None
    show ?thesis unfolding classify_spec_def None no_prefix categories_def by simp
  next
    case (Some pc)
    from find_Some_in_set[OF this] show ?thesis
      unfolding classify_spec_def None Some categories_def by auto
  qed
qed

text \<open>
  Claim C9. \<open>getRuleCategory\<close> returns one of the four scored categories: the first of
  the tags security, completeness, structure, consistency that the rule carries, otherwise
  the category of the identifier's prefix (\<open>sec-\<close>, \<open>com-\<close>, \<open>str-\<close>, \<open>cns-\<close>),
  otherwise completeness; it never returns architecture.
\<close>

theorem classification:
  "getRuleCategory rid tgs = classify_spec rid tgs
   \<and> getRuleCategory rid tgs \<in> {Security, Completeness, Structure, Consistency}
   \<and> getRuleCategory rid tgs \<noteq> Architecture"
proof -
  have "getRuleCategory rid tgs \<in> set categories"
    unfolding getRuleCategory_spec by (rule classify_spec_scored)
  then show ?thesis using getRuleCategory_spec[of rid tgs] by (auto simp: categories_def)
qed

theorem classification_witness:
  "getRuleCategory ''cns-casing'' (Some [''naming'', ''structure'', ''security'']) = Security
   \<and> getRuleCategory ''cns-casing'' (Some [''naming'']) = Consistency
   \<and> getRuleCategory ''str-refs'' None = Structure
   \<and> getRuleCategory ''CNS-01'' None = Completeness"
  using classification[of "''cns-casing''" "Some [''naming'', ''structure'', ''security'']"]
    classification[of "''cns-casing''" "Some [''naming'']"]
    classification[of "''str-refs''" None]
    classification[of "''CNS-01''" None]
  by (simp add: classify_spec_def)

section \<open>The summary of an audit\<close>

lemma severity_partition:
  "length (filter (\<lambda>v. severity v = Error) vs) + length (filter (\<lambda>v. severity v = Warn) vs)
   + length (filter (\<lambda>v. severity v = Info) vs) + length (filter (\<lambda>v. severity v = Hint) vs)
   = length vs"
proof (induction vs)
  case Nil
  show ?case by simp
next
  case (Cons v vs)
  then show ?case by (cases "severity v") simp_all
qed

lemma hint_counted: "v \<in> set vs \<Longrightarrow> severity v = Hint \<Longrightarrow>
   0 < length (filter (\<lambda>v. severity v = Hint) vs)"
  by (induction vs) auto

text \<open>
  Claim C10. In every audit result, \<open>totalViolations\<close> is the length of the violations
  list; \<open>errorCount\<close>, \<open>warningCount\<close> and \<open>infoCount\<close> count the violations of
  severity error, warn and info; a violation of severity hint is counted in the total and in
  none of the three, so that the three counts add up to less than the total whenever there
  is a hint.
\<close>

theorem summary_counts:
  assumes "r = audit cfg ruleset unresolved rs"
  shows "violations r = convertResults rs
   \<and> totalViolations (summary r) = length (violations r)
   \<and> errorCount (summary r)
       = card {i. i < length (violations r) \<and> severity (violations r ! i) = Error}
   \<and> warningCount (summary r)
       = card {i. i < length (violations r) \<and> severity (violations r ! i) = Warn}
   \<and> infoCount (summary r)
       = card {i. i < length (violations r) \<and> severity (violations r ! i) = Info}
   \<and> errorCount (summary r) + warningCount (summary r) + infoCount (summary r)
       + card {i. i < length (violations r) \<and> severity (violations r ! i) = Hint}
       = totalViolations (summary r)
   \<and> ((\<exists>v \<in> set (violations r). severity v = Hint) \<longrightarrow>
        errorCount (summary r) + warningCount (summary r) + infoCount (summary r)
        < totalViolations (summary r))"
proof -
  let ?vs = "convertResults rs"
  have v: "violations r = ?vs" and t: "totalViolations (summary r) = length ?vs"
    and e: "errorCount (summary r) = length (filter (\<lambda>v. severity v = Error) ?vs)"
    and w: "warningCount (summary r) = length (filter (\<lambda>v. severity v = Warn) ?vs)"
    and i: "infoCount (summary r) = length (filter (\<lambda>v. severity v = Info) ?vs)"
    unfolding assms by (simp_all add: audit_def Let_def)
  have h: "(\<exists>v \<in> set ?vs. severity v = Hint) \<longrightarrow>
        length (filter (\<lambda>v. severity v = Error) ?vs) + length (filter (\<lambda>v. severity v = Warn) ?vs)
        + length (filter (\<lambda>v. severity v = Info) ?vs) < length ?vs"
  proof
    assume "\<exists>v \<in> set ?vs. severity v = Hint"
    then obtain v where "v \<in> set ?vs" "severity v = Hint" by blast
    then have "0 < length (filter (\<lambda>v. severity v = Hint) ?vs)" by (rule hint_counted)
    with severity_partition[of ?vs] show "length (filter (\<lambda>v. severity v = Error) ?vs)
        + length (filter (\<lambda>v. severity v = Warn) ?vs)
        + length (filter (\<lambda>v. severity v = Info) ?vs) < length ?vs" by linarith
  qed
  show ?thesis
    unfolding v t e w i using severity_partition[of ?vs] h
    by (simp add: length_filter_conv_card)
qed

theorem summary_counts_witness:
  "summary (audit exampleConfig exampleRuleset False
      [finding ''com-doc'' 0, finding ''str-refs'' 3, finding ''cns-casing'' 1,
       finding ''com-doc'' 2, finding ''x'' 7])
   = \<lparr> totalViolations = 5, errorCount = 1, warningCount = 1, infoCount = 1, fatalCount = 0 \<rparr>"
  using summary_counts[OF refl, of exampleConfig exampleRuleset False
      "[finding ''com-doc'' 0, finding ''str-refs'' 3, finding ''cns-casing'' 1,
       finding ''com-doc'' 2, finding ''x'' 7]"]
  by (simp add: audit_def Let_def convertResults_def finding_def isFatal_def exampleConfig_def)


section \<open>Rounding to the nearest double\<close>










lemma double_ulp_pos: "0 < double_ulp x"
  by (simp add: double_ulp_def)


















section \<open>Rule resolution\<close>

lemma resolveClause_cases:
  "resolveClause rid c = first_offence (unknown_in_clauses rid [c]) (bind_clause c)"
proof (cases "then_function c")
  case (Name fname)
  then show ?thesis
    by (cases "js_get (map_of SPECTRAL_FUNCTION_MAP) fname")
       (simp_all add: resolveClause_def unknown_in_clauses_def bind_clause_def
          first_offence_def unknown_function_error_def)
next
  case (Bound f)
  then show ?thesis
    by (simp add: resolveClause_def unknown_in_clauses_def bind_clause_def first_offence_def)
next
  case (Inherited_member member)
  then show ?thesis
    by (simp add: resolveClause_def unknown_in_clauses_def bind_clause_def first_offence_def)
next
  case Other
  then show ?thesis
    by (simp add: resolveClause_def unknown_in_clauses_def bind_clause_def first_offence_def)
qed

lemma unknown_in_clauses_Cons:
  "unknown_in_clauses rid (c # cs) = unknown_in_clauses rid [c] @ unknown_in_clauses rid cs"
  by (simp add: unknown_in_clauses_def)

lemma resolveThen_cases:
  "resolveThen rid cs = first_offence (unknown_in_clauses rid cs) (map bind_clause cs)"
proof (induction cs)
  case Nil
  show ?case by (simp add: unknown_in_clauses_def first_offence_def)
next
  case (Cons c cs)
  show ?case
    by (cases "unknown_in_clauses rid [c]"; cases "unknown_in_clauses rid cs")
       (simp_all add: unknown_in_clauses_Cons[of rid c cs] resolveClause_cases Cons.IH
          first_offence_def)
qed

lemma resolveRule_cases:
  "resolveRule rid rule
   = first_offence (unknown_in_clauses rid (clauses_of (rule_then rule))) (bind_rule rule)"
proof (cases "rule_then rule")
  case None
  then show ?thesis
    by (simp add: resolveRule_def clauses_of_def unknown_in_clauses_def bind_rule_def
        first_offence_def)
next
  case (Some t)
  show ?thesis
  proof (cases t)
    case (Single c)
    show ?thesis
      by (cases "unknown_in_clauses rid [c]")
         (simp_all add: resolveRule_def Some Single resolveThen_cases clauses_of_def
            bind_rule_def first_offence_def)
  next
    case (Many cs)
    show ?thesis
      by (cases "unknown_in_clauses rid cs")
         (simp_all add: resolveRule_def Some Many resolveThen_cases clauses_of_def
            bind_rule_def first_offence_def)
  qed
qed

lemma offences_of_Cons:
  "offences_of ((rid, rule) # entries)
   = unknown_in_clauses rid (clauses_of (rule_then rule)) @ offences_of entries"
  by (simp add: offences_of_def)

lemma resolveRules_cases:
  "resolveRules entries
   = first_offence (offences_of entries) (map (\<lambda>entry. (fst entry, bind_rule (snd entry))) entries)"
proof (induction entries)
  case Nil
  show ?case by (simp add: offences_of_def first_offence_def)
next
  case (Cons entry entries)
  obtain rid rule where e: "entry = (rid, rule)" by (cases entry)
  show ?case
    by (cases "unknown_in_clauses rid (clauses_of (rule_then rule))"; cases "offences_of entries")
       (simp_all add: e offences_of_Cons resolveRule_cases Cons.IH first_offence_def)
qed

lemma resolveRuleFunctions_cases:
  "resolveRuleFunctions ruleset =
     (case unknown_functions ruleset of
        [] \<Rightarrow> Inr (ruleset\<lparr>rules := map (\<lambda>entry. (fst entry, bind_rule (snd entry))) (rules ruleset)\<rparr>)
      | offence # others \<Rightarrow> Inl (unknown_function_error offence))"
proof -
  have u: "unknown_functions ruleset = offences_of (rules ruleset)"
    by (simp add: unknown_functions_def offences_of_def)
  show ?thesis
    by (cases "offences_of (rules ruleset)")
       (simp_all add: resolveRuleFunctions_def resolveRules_cases u first_offence_def)
qed

lemma js_get_Undefined_iff:
  "js_get obj key = Undefined \<longleftrightarrow> obj key = None \<and> key \<notin> set Object_prototype_members"
  by (cases "obj key") (simp_all add: js_get_def)

lemma known_evaluator_iff: "known_evaluator fname \<longleftrightarrow> map_of SPECTRAL_FUNCTION_MAP fname \<noteq> None"
  unfolding known_evaluator_def by (simp add: map_of_eq_None_iff)

lemma unknown_in_clauses_iff:
  "offence \<in> set (unknown_in_clauses rid cs) \<longleftrightarrow>
     (\<exists>c \<in> set cs. then_function c = Name (snd offence) \<and> fst offence = rid
        \<and> js_get (map_of SPECTRAL_FUNCTION_MAP) (snd offence) = Undefined)"
proof (induction cs)
  case Nil
  show ?case by (simp add: unknown_in_clauses_def)
next
  case (Cons c cs)
  have one: "offence \<in> set (unknown_in_clauses rid [c]) \<longleftrightarrow>
     (then_function c = Name (snd offence) \<and> fst offence = rid
        \<and> js_get (map_of SPECTRAL_FUNCTION_MAP) (snd offence) = Undefined)"
  proof (cases "then_function c")
    case (Name fname)
    then show ?thesis
      by (cases "js_get (map_of SPECTRAL_FUNCTION_MAP) fname"; cases offence)
         (auto simp: unknown_in_clauses_def)
  next
    case (Bound f)
    then show ?thesis by (simp add: unknown_in_clauses_def)
  next
    case (Inherited_member member)
    then show ?thesis by (simp add: unknown_in_clauses_def)
  next
    case Other
    then show ?thesis by (simp add: unknown_in_clauses_def)
  qed
  show ?case
    unfolding unknown_in_clauses_Cons[of rid c cs] set_append Un_iff one Cons.IH by auto
qed

lemma unknown_functions_iff:
  "(rid, fname) \<in> set (unknown_functions ruleset) \<longleftrightarrow>
     (\<exists>rule c. (rid, rule) \<in> set (rules ruleset) \<and> c \<in> set (clauses_of (rule_then rule))
        \<and> then_function c = Name fname \<and> \<not> known_evaluator fname
        \<and> fname \<notin> set Object_prototype_members)"
proof -
  have "(rid, fname) \<in> set (unknown_functions ruleset) \<longleftrightarrow>
     (\<exists>entry \<in> set (rules ruleset).
        (rid, fname) \<in> set (unknown_in_clauses (fst entry) (clauses_of (rule_then (snd entry)))))"
    by (simp add: unknown_functions_def)
  also have "\<dots> \<longleftrightarrow> (\<exists>entry \<in> set (rules ruleset). \<exists>c \<in> set (clauses_of (rule_then (snd entry))).
        then_function c = Name fname \<and> rid = fst entry
        \<and> js_get (map_of SPECTRAL_FUNCTION_MAP) fname = Undefined)"
    unfolding unknown_in_clauses_iff by simp
  also have "\<dots> \<longleftrightarrow> (\<exists>rule c. (rid, rule) \<in> set (rules ruleset)
        \<and> c \<in> set (clauses_of (rule_then rule))
        \<and> then_function c = Name fname
        \<and> js_get (map_of SPECTRAL_FUNCTION_MAP) fname = Undefined)"
    by force
  finally show ?thesis unfolding js_get_Undefined_iff known_evaluator_iff by simp
qed

text \<open>
  What \<open>resolveRuleFunctions\<close> does. It throws exactly when some clause names a function
  that is neither a known evaluator nor a member of \<open>Object.prototype\<close>; the error is
  the one of the first such clause, and its message names the function and the rule.
  Otherwise every rule is returned, a single clause as a single clause and a list as a
  list, with each name replaced by what the read of the function table finds.
\<close>

lemma resolveRuleFunctions_result:
  "((rid, fname) \<in> set (unknown_functions ruleset) \<longleftrightarrow>
      (\<exists>rule c. (rid, rule) \<in> set (rules ruleset) \<and> c \<in> set (clauses_of (rule_then rule))
         \<and> then_function c = Name fname \<and> \<not> known_evaluator fname
         \<and> fname \<notin> set Object_prototype_members))
   \<and> (unknown_functions ruleset \<noteq> [] \<longrightarrow>
        (\<exists>rid' fname'. (rid', fname') \<in> set (unknown_functions ruleset)
           \<and> resolveRuleFunctions ruleset =
               Inl (ConfigLoadError
                      (''Unknown Spectral function: '' @ fname' @ '' in rule '' @ rid')
                      ''ruleset.yaml'')))
   \<and> (unknown_functions ruleset = [] \<longrightarrow>
        resolveRuleFunctions ruleset =
          Inr (ruleset\<lparr>rules :=
                 map (\<lambda>entry. (fst entry,
                        (snd entry)\<lparr>rule_then := map_option bind_then (rule_then (snd entry))\<rparr>))
                   (rules ruleset)\<rparr>))"
proof -
  have thrown: "\<exists>rid' fname'. (rid', fname') \<in> set (unknown_functions ruleset)
           \<and> resolveRuleFunctions ruleset =
               Inl (ConfigLoadError
                      (''Unknown Spectral function: '' @ fname' @ '' in rule '' @ rid')
                      ''ruleset.yaml'')"
    if "unknown_functions ruleset \<noteq> []"
  proof -
    from that obtain offence others where u: "unknown_functions ruleset = offence # others"
      by (cases "unknown_functions ruleset") auto
    obtain rid' fname' where o: "offence = (rid', fname')" by (cases offence)
    have "resolveRuleFunctions ruleset = Inl (unknown_function_error offence)"
      unfolding resolveRuleFunctions_cases u by simp
    then show ?thesis unfolding u o unknown_function_error_def by auto
  qed
  have bound: "resolveRuleFunctions ruleset =
          Inr (ruleset\<lparr>rules :=
                 map (\<lambda>entry. (fst entry,
                        (snd entry)\<lparr>rule_then := map_option bind_then (rule_then (snd entry))\<rparr>))
                   (rules ruleset)\<rparr>)"
    if "unknown_functions ruleset = []"
    unfolding resolveRuleFunctions_cases that by (simp add: bind_rule_def)
  show ?thesis using unknown_functions_iff[of rid fname ruleset] thrown bound by blast
qed

lemma known_names:
  "js_get (map_of SPECTRAL_FUNCTION_MAP) ''truthy'' = Own Fn_truthy"
  "js_get (map_of SPECTRAL_FUNCTION_MAP) ''defined'' = Own Fn_defined"
  "js_get (map_of SPECTRAL_FUNCTION_MAP) ''consistent-casing'' = Own Fn_consistentCasing"
  "js_get (map_of SPECTRAL_FUNCTION_MAP) ''truthyy'' = Undefined"
  "js_get (map_of SPECTRAL_FUNCTION_MAP) ''toString'' = Inherited ''toString''"
  by (simp_all add: js_get_def SPECTRAL_FUNCTION_MAP_def Object_prototype_members_def)

lemma example_offences:
  "unknown_functions exampleRuleset = []"
  "unknown_functions brokenRuleset = [(''str-refs'', ''truthyy'')]"
  "unknown_functions inheritedRuleset = []"
  by (simp_all add: unknown_functions_def unknown_in_clauses_def clauses_of_def
      exampleRuleset_def brokenRuleset_def inheritedRuleset_def known_names)

lemma example_resolution:
  "resolveRuleFunctions brokenRuleset =
     Inl (ConfigLoadError ''Unknown Spectral function: truthyy in rule str-refs'' ''ruleset.yaml'')"
  "resolveRuleFunctions exampleRuleset =
     Inr (exampleRuleset\<lparr>rules :=
        [(''com-doc'', (snd (rules exampleRuleset ! 0))\<lparr>rule_then :=
            Some (Single \<lparr> then_function = Bound Fn_truthy,
                           functionOptions = None, field = Some ''description'' \<rparr>)\<rparr>),
         (''cns-casing'', (snd (rules exampleRuleset ! 1))\<lparr>rule_then :=
            Some (Many [\<lparr> then_function = Bound Fn_consistentCasing,
                          functionOptions = None, field = None \<rparr>,
                        \<lparr> then_function = Bound Fn_defined,
                          functionOptions = None, field = None \<rparr>])\<rparr>)]\<rparr>)"
proof -
  show "resolveRuleFunctions brokenRuleset =
     Inl (ConfigLoadError ''Unknown Spectral function: truthyy in rule str-refs'' ''ruleset.yaml'')"
    using resolveRuleFunctions_result[of "''x''" "''y''" brokenRuleset]
    unfolding example_offences by simp
  show "resolveRuleFunctions exampleRuleset =
     Inr (exampleRuleset\<lparr>rules :=
        [(''com-doc'', (snd (rules exampleRuleset ! 0))\<lparr>rule_then :=
            Some (Single \<lparr> then_function = Bound Fn_truthy,
                           functionOptions = None, field = Some ''description'' \<rparr>)\<rparr>),
         (''cns-casing'', (snd (rules exampleRuleset ! 1))\<lparr>rule_then :=
            Some (Many [\<lparr> then_function = Bound Fn_consistentCasing,
                          functionOptions = None, field = None \<rparr>,
                        \<lparr> then_function = Bound Fn_defined,
                          functionOptions = None, field = None \<rparr>])\<rparr>)]\<rparr>)"
    using resolveRuleFunctions_result[of "''x''" "''y''" exampleRuleset]
    unfolding example_offences
    by (simp add: exampleRuleset_def bind_clause_def known_names)
qed

text \<open>
  Claim C8. The claim does not hold of the code at a clause whose function name is a
  member of \<open>Object.prototype\<close>. \<open>toString\<close> is not a known evaluator, so the claim asks
  for a \<open>ConfigLoadError\<close> that names the rule \<open>str-refs\<close> and the function \<open>toString\<close>.
  In the code \<open>SPECTRAL_FUNCTION_MAP['toString']\<close> is the inherited member, the test
  \<open>if (!func)\<close> does not hold, nothing is thrown, and the rule is returned with the
  inherited member in the place of an evaluator.
\<close>

theorem inherited_function_name_not_rejected:
  "\<not> known_evaluator ''toString''
   \<and> then_function (hd (clauses_of (rule_then (snd (hd (rules inheritedRuleset))))))
       = Name ''toString''
   \<and> resolveRuleFunctions inheritedRuleset =
       Inr (inheritedRuleset\<lparr>rules :=
          [(''str-refs'', (snd (rules inheritedRuleset ! 0))\<lparr>rule_then :=
              Some (Single \<lparr> then_function = Inherited_member ''toString'',
                             functionOptions = None, field = None \<rparr>)\<rparr>)]\<rparr>)"
proof -
  have k: "\<not> known_evaluator ''toString''"
    by (simp add: known_evaluator_def SPECTRAL_FUNCTION_MAP_def)
  have n: "then_function (hd (clauses_of (rule_then (snd (hd (rules inheritedRuleset))))))
       = Name ''toString''"
    by (simp add: inheritedRuleset_def clauses_of_def)
  have r: "resolveRuleFunctions inheritedRuleset =
       Inr (inheritedRuleset\<lparr>rules :=
          [(''str-refs'', (snd (rules inheritedRuleset ! 0))\<lparr>rule_then :=
              Some (Single \<lparr> then_function = Inherited_member ''toString'',
                             functionOptions = None, field = None \<rparr>)\<rparr>)]\<rparr>)"
    unfolding resolveRuleFunctions_cases example_offences
    by (simp add: inheritedRuleset_def bind_rule_def bind_clause_def known_names)
  from k n r show ?thesis by blast
qed

section \<open>Validation of the weights\<close>












section \<open>Validation of the grading scale\<close>











section \<open>The casing counter and the casing decision\<close>

lemma camel_snake_exclusive: "\<not> (isCamelCase key \<and> isSnakeCase key)"
  by (simp add: isCamelCase_def isSnakeCase_def)

lemma countedKeys_Nil: "countedKeys [] stats = stats"
  by (simp add: countedKeys_def)

lemma countedKeys_append: "countedKeys (xs @ ys) stats = countedKeys ys (countedKeys xs stats)"
  by (simp add: countedKeys_def)

lemma countedKeys_Cons:
  "countedKeys (key # ks) stats =
     countedKeys ks
       (if isCamelCase key
        then (stats\<lparr>total := total stats + 1\<rparr>)\<lparr>camelCase := camelCase (stats\<lparr>total := total stats + 1\<rparr>) + 1\<rparr>
        else if isSnakeCase key
        then (stats\<lparr>total := total stats + 1\<rparr>)\<lparr>snakeCase := snakeCase (stats\<lparr>total := total stats + 1\<rparr>) + 1\<rparr>
        else stats\<lparr>total := total stats + 1\<rparr>)"
  using camel_snake_exclusive[of key] by (auto simp: countedKeys_def)

lemma not_object_visits_nothing:
  "\<not> (typeof_object v \<and> v \<noteq> JNull) \<Longrightarrow> visitedKeys v = []"
  by (cases v) simp_all

lemma count_visited:
  "countCasingStyles obj stats = countedKeys (visitedKeys obj) stats"
  "countKeys kvs stats = countedKeys (visitedEntries kvs) stats"
proof (induction obj stats and kvs stats rule: countCasingStyles_countKeys.induct)
  case (7 key v rest stats)
  show ?case
  proof (cases "key \<in> set IGNORED_KEYS")
    case True
    note ign = True
    show ?thesis
    proof (cases "key = ''properties''")
      case True
      show ?thesis
      proof (cases "typeof_object v")
        case obj: True
        from "7.IH"(1)[OF ign] True obj
        have a: "countCasingStyles v stats = countedKeys (visitedKeys v) stats" by simp
        from "7.IH"(3)[OF ign refl refl]
        show ?thesis using ign True obj a by (simp add: countedKeys_append)
      next
        case nobj: False
        then have e: "visitedKeys v = []" by (simp add: not_object_visits_nothing)
        from "7.IH"(3)[OF ign refl refl]
        show ?thesis using ign True nobj e by (simp add: countedKeys_Nil)
      qed
    next
      case False
      note np = False
      show ?thesis
      proof (cases "key = ''items''")
        case True
        show ?thesis
        proof (cases "typeof_object v")
          case obj: True
          from "7.IH"(2)[OF ign refl] True obj np
          have a: "countCasingStyles v stats = countedKeys (visitedKeys v) stats" by simp
          from "7.IH"(3)[OF ign refl refl]
          show ?thesis using ign True obj np a by (simp add: countedKeys_append)
        next
          case nobj: False
          then have e: "visitedKeys v = []" by (simp add: not_object_visits_nothing)
          from "7.IH"(3)[OF ign refl refl]
          show ?thesis using ign True nobj np e by (simp add: countedKeys_Nil)
        qed
      next
        case False
        from "7.IH"(3)[OF ign refl refl]
        show ?thesis using ign np False by (simp add: countedKeys_Nil)
      qed
    qed
  next
    case False
    note nign = False
    define s1 where "s1 = stats\<lparr>total := total stats + 1\<rparr>"
    define s2 where "s2 = (if isCamelCase key then s1\<lparr>camelCase := camelCase s1 + 1\<rparr>
                           else if isSnakeCase key then s1\<lparr>snakeCase := snakeCase s1 + 1\<rparr>
                           else s1)"
    define s3 where "s3 = (if typeof_object v \<and> v \<noteq> JNull then countCasingStyles v s2 else s2)"
    have v: "s3 = countedKeys (visitedKeys v) s2"
    proof (cases "typeof_object v \<and> v \<noteq> JNull")
      case True
      from "7.IH"(4)[OF nign s1_def s2_def True] True show ?thesis by (simp add: s3_def)
    next
      case False
      then have "visitedKeys v = []" by (rule not_object_visits_nothing)
      moreover have "s3 = s2" unfolding s3_def using False by (simp only: if_False)
      ultimately show ?thesis by (simp add: countedKeys_Nil)
    qed
    from "7.IH"(5)[OF nign s1_def s2_def s3_def]
    have r: "countKeys rest s3 = countedKeys (visitedEntries rest) s3" .
    have k: "countedKeys [key] stats = s2"
      using countedKeys_Cons[of key "[]" stats] by (simp add: countedKeys_Nil s2_def s1_def)
    have "countKeys ((key, v) # rest) stats = countKeys rest s3"
      using nign by (simp add: Let_def s3_def s2_def s1_def)
    also have "\<dots> = countedKeys (visitedEntries rest) s3" by (rule r)
    also have "\<dots> = countedKeys (visitedEntries rest) (countedKeys (visitedKeys v) s2)"
      by (simp only: v)
    also have "\<dots> = countedKeys (([key] @ visitedKeys v) @ visitedEntries rest) stats"
      unfolding countedKeys_append k ..
    also have "\<dots> = countedKeys (visitedEntries ((key, v) # rest)) stats"
      using nign by simp
    finally show ?thesis .
  qed
qed (simp_all add: countedKeys_Nil)


lemma visited_not_ignored:
  "k \<in> set (visitedKeys obj) \<Longrightarrow> k \<notin> set IGNORED_KEYS"
  "k \<in> set (visitedEntries kvs) \<Longrightarrow> k \<notin> set IGNORED_KEYS"
  by (induction obj and kvs rule: visitedKeys_visitedEntries.induct) (auto split: if_splits)

lemma countCasingStyles_visited:
  "countCasingStyles obj noStats =
     \<lparr> camelCase = length (filter isCamelCase (visitedKeys obj)),
       snakeCase = length (filter isSnakeCase (visitedKeys obj)),
       total = length (visitedKeys obj) \<rparr>"
  by (simp add: count_visited(1) countedKeys_def noStats_def)

lemma filter_exclusive_le:
  "length (filter isCamelCase ks) + length (filter isSnakeCase ks) \<le> length ks"
proof (induction ks)
  case Nil
  show ?case by simp
next
  case (Cons k ks)
  with camel_snake_exclusive[of k] show ?case by (cases "isCamelCase k") simp_all
qed

lemma ignored_single:
  "key = ''properties'' \<or> key = ''items'' \<Longrightarrow>
     countCasingStyles (JObj [(key, v)]) stats = countCasingStyles v stats"
  by (cases v) (auto simp: IGNORED_KEYS_def Let_def)

lemma ignored_other:
  "key \<in> set IGNORED_KEYS \<Longrightarrow> key \<noteq> ''properties'' \<Longrightarrow> key \<noteq> ''items'' \<Longrightarrow>
     countCasingStyles (JObj [(key, v)]) stats = stats"
  by (simp add: Let_def)

lemma neither_style:
  "key \<notin> set IGNORED_KEYS \<Longrightarrow> \<not> isCamelCase key \<Longrightarrow> \<not> isSnakeCase key \<Longrightarrow>
     countCasingStyles (JObj [(key, JStr x)]) stats = stats\<lparr>total := total stats + 1\<rparr>"
  by (simp add: Let_def)

text \<open>
  Claim C7, amended. From empty counters, \<open>countCasingStyles\<close> counts in \<open>total\<close> the
  visited keys, in \<open>camelCase\<close> those that match \<open>^[a-z][a-zA-Z0-9]*$\<close> and have no
  underscore, and in \<open>snakeCase\<close> those that match \<open>^[a-z][a-z0-9]*(_[a-z][a-z0-9]*)*$\<close>
  (anchored at the end too) and have an underscore. No key is of both styles, so the two
  counts add up to at most \<open>total\<close>; a key of neither style adds to \<open>total\<close> only; a key
  of the ignore list adds to no counter, and the values of \<open>properties\<close> and \<open>items\<close>
  are still traversed.
\<close>

theorem casing_buckets:
  "countCasingStyles obj noStats =
     \<lparr> camelCase = length (filter isCamelCase (visitedKeys obj)),
       snakeCase = length (filter isSnakeCase (visitedKeys obj)),
       total = length (visitedKeys obj) \<rparr>
   \<and> camelCase (countCasingStyles obj noStats) + snakeCase (countCasingStyles obj noStats)
       \<le> total (countCasingStyles obj noStats)
   \<and> \<not> (isCamelCase key \<and> isSnakeCase key)
   \<and> (isCamelCase key \<longleftrightarrow> regex_test CAMEL_CASE_PATTERN key \<and> CHR ''_'' \<notin> set key)
   \<and> (isSnakeCase key \<longleftrightarrow> regex_test SNAKE_CASE_PATTERN key \<and> CHR ''_'' \<in> set key)
   \<and> (\<forall>k \<in> set (visitedKeys obj). k \<notin> set IGNORED_KEYS)
   \<and> (key \<notin> set IGNORED_KEYS \<and> \<not> isCamelCase key \<and> \<not> isSnakeCase key \<longrightarrow>
        countCasingStyles (JObj [(key, JStr x)]) stats = stats\<lparr>total := total stats + 1\<rparr>)
   \<and> (key \<in> set IGNORED_KEYS \<and> key \<noteq> ''properties'' \<and> key \<noteq> ''items'' \<longrightarrow>
        countCasingStyles (JObj [(key, v)]) stats = stats)
   \<and> (key = ''properties'' \<or> key = ''items'' \<longrightarrow>
        countCasingStyles (JObj [(key, v)]) stats = countCasingStyles v stats)"
proof -
  have le: "camelCase (countCasingStyles obj noStats) + snakeCase (countCasingStyles obj noStats)
       \<le> total (countCasingStyles obj noStats)"
    unfolding countCasingStyles_visited using filter_exclusive_le by simp
  show ?thesis
    using countCasingStyles_visited[of obj] le camel_snake_exclusive[of key]
      visited_not_ignored(1)[of _ obj] neither_style[of key x stats]
      ignored_other[of key v stats] ignored_single[of key v stats]
    unfolding isCamelCase_def isSnakeCase_def by blast
qed

lemma key_styles:
  "isCamelCase ''userId''" "isCamelCase ''firstName''" "isCamelCase ''lastName''"
  "isCamelCase ''createdAt''" "isCamelCase ''updatedAt''" "isCamelCase ''enum''"
  "\<not> isCamelCase ''phone_number''" "\<not> isCamelCase ''updated_at''"
  "\<not> isCamelCase ''UserId''" "\<not> isCamelCase ''0''" "\<not> isCamelCase ''1''"
  "\<not> isCamelCase ''user-id''"
  by (simp_all add: isCamelCase_def CAMEL_CASE_PATTERN_def in_range_def)

lemma key_styles_snake:
  "isSnakeCase ''phone_number''" "isSnakeCase ''updated_at''"
  "\<not> isSnakeCase ''userId''" "\<not> isSnakeCase ''firstName''" "\<not> isSnakeCase ''lastName''"
  "\<not> isSnakeCase ''createdAt''" "\<not> isSnakeCase ''updatedAt''" "\<not> isSnakeCase ''enum''"
  "\<not> isSnakeCase ''UserId''" "\<not> isSnakeCase ''0''" "\<not> isSnakeCase ''1''"
  "\<not> isSnakeCase ''user-id''" "\<not> isSnakeCase ''Phone_number''"
  by (simp_all add: isSnakeCase_def SNAKE_CASE_PATTERN_def in_range_def)

lemma visited_examples:
  "visitedKeys schema_5_1 =
     [''userId'', ''firstName'', ''lastName'', ''createdAt'', ''updatedAt'', ''phone_number'']"
  "visitedKeys schema_4_2 =
     [''userId'', ''firstName'', ''lastName'', ''createdAt'', ''updated_at'', ''phone_number'']"
  "visitedKeys (JObj [(''UserId'', JObj [(''enum'', JArr [JStr ''a'', JStr ''b''])])])
     = [''UserId'', ''enum'', ''0'', ''1'']"
  by (simp_all add: schema_5_1_def schema_4_2_def stringSchema_def IGNORED_KEYS_def JArr_def)

theorem casing_buckets_witness:
  "countCasingStyles schema_5_1 noStats = \<lparr> camelCase = 5, snakeCase = 1, total = 6 \<rparr>
   \<and> countCasingStyles (JObj [(''UserId'', JObj [(''enum'', JArr [JStr ''a'', JStr ''b''])])]) noStats
       = \<lparr> camelCase = 1, snakeCase = 0, total = 4 \<rparr>"
proof -
  have a: "countCasingStyles schema_5_1 noStats =
     \<lparr> camelCase = length (filter isCamelCase (visitedKeys schema_5_1)),
       snakeCase = length (filter isSnakeCase (visitedKeys schema_5_1)),
       total = length (visitedKeys schema_5_1) \<rparr>"
    using casing_buckets[of schema_5_1 "''userId''" "''x''" noStats JNull] by (rule conjunct1)
  have b: "countCasingStyles (JObj [(''UserId'', JObj [(''enum'', JArr [JStr ''a'', JStr ''b''])])]) noStats =
     \<lparr> camelCase = length (filter isCamelCase
         (visitedKeys (JObj [(''UserId'', JObj [(''enum'', JArr [JStr ''a'', JStr ''b''])])]))),
       snakeCase = length (filter isSnakeCase
         (visitedKeys (JObj [(''UserId'', JObj [(''enum'', JArr [JStr ''a'', JStr ''b''])])]))),
       total = length
         (visitedKeys (JObj [(''UserId'', JObj [(''enum'', JArr [JStr ''a'', JStr ''b''])])])) \<rparr>"
    using casing_buckets[of "JObj [(''UserId'', JObj [(''enum'', JArr [JStr ''a'', JStr ''b''])])]"
      "''userId''" "''x''" noStats JNull] by (rule conjunct1)
  show ?thesis
    unfolding a b visited_examples by (simp add: key_styles key_styles_snake)
qed

text \<open>
  Claim C4. \<open>consistentCasing\<close> emits no finding when at most 5 keys were counted, and
  none when the minority count is 0; otherwise it emits exactly one finding when
  \<open>minority / (majority + minority) > 0.20\<close> and none when not. So 5 camelCase and 1
  snake_case among 6 keys give no finding, 4 and 2 among 6 give exactly one.
\<close>

theorem casing_decision:
  "(total (countCasingStyles targetVal noStats) \<le> 5 \<longrightarrow> consistentCasing targetVal = [])
   \<and> (total (countCasingStyles targetVal noStats) > 5
        \<and> min (camelCase (countCasingStyles targetVal noStats))
               (snakeCase (countCasingStyles targetVal noStats)) = 0
        \<longrightarrow> consistentCasing targetVal = [])
   \<and> (total (countCasingStyles targetVal noStats) > 5
        \<and> min (camelCase (countCasingStyles targetVal noStats))
               (snakeCase (countCasingStyles targetVal noStats)) \<noteq> 0
        \<longrightarrow> (if (of_nat (min (camelCase (countCasingStyles targetVal noStats))
                              (snakeCase (countCasingStyles targetVal noStats))) :: number)
                  / of_nat (max (camelCase (countCasingStyles targetVal noStats))
                                (snakeCase (countCasingStyles targetVal noStats))
                            + min (camelCase (countCasingStyles targetVal noStats))
                                  (snakeCase (countCasingStyles targetVal noStats)))
                  > 20 / 100
              then length (consistentCasing targetVal) = 1
              else consistentCasing targetVal = []))
   \<and> (camelCase (countCasingStyles targetVal noStats) = 5
        \<and> snakeCase (countCasingStyles targetVal noStats) = 1
        \<and> total (countCasingStyles targetVal noStats) = 6
        \<longrightarrow> consistentCasing targetVal = [])
   \<and> (camelCase (countCasingStyles targetVal noStats) = 4
        \<and> snakeCase (countCasingStyles targetVal noStats) = 2
        \<and> total (countCasingStyles targetVal noStats) = 6
        \<longrightarrow> length (consistentCasing targetVal) = 1)"
proof -
  define stats where "stats = countCasingStyles targetVal noStats"
  have a: "total stats \<le> 5 \<longrightarrow> consistentCasing targetVal = []"
    by (simp add: consistentCasing_def stats_def Let_def)
  have b: "total stats > 5 \<and> min (camelCase stats) (snakeCase stats) = 0
        \<longrightarrow> consistentCasing targetVal = []"
    by (simp add: consistentCasing_def stats_def Let_def)
  have c: "total stats > 5 \<and> min (camelCase stats) (snakeCase stats) \<noteq> 0
        \<longrightarrow> (if (of_nat (min (camelCase stats) (snakeCase stats)) :: number)
                  / of_nat (max (camelCase stats) (snakeCase stats)
                            + min (camelCase stats) (snakeCase stats)) > 20 / 100
              then length (consistentCasing targetVal) = 1
              else consistentCasing targetVal = [])"
    by (simp add: consistentCasing_def stats_def[symmetric] Let_def)
  have d: "camelCase stats = 5 \<and> snakeCase stats = 1 \<and> total stats = 6
        \<longrightarrow> consistentCasing targetVal = []"
    by (simp add: consistentCasing_def stats_def[symmetric] Let_def)
  have e: "camelCase stats = 4 \<and> snakeCase stats = 2 \<and> total stats = 6
        \<longrightarrow> length (consistentCasing targetVal) = 1"
    by (simp add: consistentCasing_def stats_def[symmetric] Let_def)
  from a b c d e show ?thesis unfolding stats_def by blast
qed

lemma example_stats:
  "countCasingStyles schema_5_1 noStats = \<lparr> camelCase = 5, snakeCase = 1, total = 6 \<rparr>"
  "countCasingStyles schema_4_2 noStats = \<lparr> camelCase = 4, snakeCase = 2, total = 6 \<rparr>"
  unfolding countCasingStyles_visited visited_examples
  by (simp_all add: key_styles key_styles_snake)

theorem casing_decision_witness:
  "consistentCasing schema_5_1 = [] \<and> length (consistentCasing schema_4_2) = 1"
  using casing_decision[of schema_5_1] casing_decision[of schema_4_2]
  unfolding example_stats by simp

text \<open>
  The claim as stated gives the snake_case pattern without the final \<open>$\<close>. The key
  \<open>user_Name\<close> has an underscore and matches that pattern (by its prefix \<open>user\<close>), and
  the counter does not count it as snake_case.
\<close>

theorem unanchored_snake_pattern_differs:
  "regex_test_prefix SNAKE_CASE_PATTERN ''user_Name''
   \<and> CHR ''_'' \<in> set ''user_Name''
   \<and> ''user_Name'' \<notin> set IGNORED_KEYS
   \<and> \<not> isSnakeCase ''user_Name''
   \<and> countCasingStyles (JObj [(''user_Name'', JStr ''string'')]) noStats
       = \<lparr> camelCase = 0, snakeCase = 0, total = 1 \<rparr>"
proof -
  have p: "regex_test_prefix SNAKE_CASE_PATTERN ''user_Name''"
    by (simp add: regex_test_prefix_def SNAKE_CASE_PATTERN_def in_range_def)
  have s: "\<not> isSnakeCase ''user_Name''"
    by (simp add: isSnakeCase_def SNAKE_CASE_PATTERN_def in_range_def)
  have c: "\<not> isCamelCase ''user_Name''"
    by (simp add: isCamelCase_def)
  have i: "''user_Name'' \<notin> set IGNORED_KEYS"
    by (simp add: IGNORED_KEYS_def)
  have n: "countCasingStyles (JObj [(''user_Name'', JStr ''string'')]) noStats
       = \<lparr> camelCase = 0, snakeCase = 0, total = 1 \<rparr>"
    using s c i by (simp add: Let_def noStats_def)
  from p s i n show ?thesis by simp
qed

end
